theory Spec2Isabelle
  imports Complex_Main "HOL-Library.Multiset"
begin

section \<open>Strings and numbers of the host language\<close>

text \<open>
  Strings are lists of characters (\<^typ>\<open>string\<close>). A character is one code unit with a
  value from 0 to 255, read as the code point of the same value, so the model covers the
  text written with the code points U+0000 to U+00FF. The built-in string methods the
  scripts call are written out below with the behaviour ECMAScript gives them on such
  text.
\<close>

definition isWhiteSpace :: "char \<Rightarrow> bool" where
  \<comment> \<open>the members of WhiteSpace and LineTerminator up to U+00FF: TAB, LF, VT, FF, CR, SP
      and the no-break space U+00A0\<close>
  "isWhiteSpace c = ((of_char c :: nat) \<in> {9, 10, 11, 12, 13, 32, 160})"

definition trim :: "string \<Rightarrow> string" where
  \<comment> \<open>\<^verbatim>\<open>String.prototype.trim\<close>\<close>
  "trim s = rev (dropWhile isWhiteSpace (rev (dropWhile isWhiteSpace s)))"

definition isUpperCase :: "char \<Rightarrow> bool" where
  \<comment> \<open>the code points up to U+00FF that have a lower-case mapping: A to Z, and U+00C0 to
      U+00DE without the multiplication sign U+00D7\<close>
  "isUpperCase c =
     ((65 \<le> (of_char c :: nat) \<and> (of_char c :: nat) \<le> 90)
      \<or> (192 \<le> (of_char c :: nat) \<and> (of_char c :: nat) \<le> 222 \<and> (of_char c :: nat) \<noteq> 215))"

definition toLowerCase :: "string \<Rightarrow> string" where
  \<comment> \<open>\<^verbatim>\<open>String.prototype.toLowerCase\<close>: an upper-case letter goes to the letter 32 code
      points above it, every other character stays\<close>
  "toLowerCase s =
     map (\<lambda>c. if isUpperCase c then char_of ((of_char c :: nat) + 32) else c) s"

fun startsWith :: "string \<Rightarrow> string \<Rightarrow> bool" where
  \<comment> \<open>\<^verbatim>\<open>s.startsWith(k)\<close>, first argument the string, second the searched prefix\<close>
  "startsWith s [] = True"
| "startsWith [] (k # ks) = False"
| "startsWith (c # cs) (k # ks) = (c = k \<and> startsWith cs ks)"

fun includesStr :: "string \<Rightarrow> string \<Rightarrow> bool" where
  \<comment> \<open>\<^verbatim>\<open>s.includes(k)\<close>: k occurs in s as a contiguous substring\<close>
  "includesStr [] k = (k = [])"
| "includesStr (c # cs) k = (startsWith (c # cs) k \<or> includesStr cs k)"

fun split :: "char \<Rightarrow> string \<Rightarrow> string list" where
  \<comment> \<open>\<^verbatim>\<open>s.split(sep)\<close> for a one-character separator; the empty string gives one empty part\<close>
  "split sep [] = [[]]"
| "split sep (c # cs) =
     (if c = sep then [] # split sep cs
      else (case split sep cs of p # ps \<Rightarrow> (c # p) # ps | [] \<Rightarrow> [[c]]))"

fun element :: "'a list \<Rightarrow> nat \<Rightarrow> 'a option" where
  \<comment> \<open>reading an array position; \<^verbatim>\<open>undefined\<close> (here \<open>None\<close>) past the end\<close>
  "element [] n = None"
| "element (x # xs) 0 = Some x"
| "element (x # xs) (Suc n) = element xs n"

definition padStart :: "nat \<Rightarrow> char \<Rightarrow> string \<Rightarrow> string" where
  \<comment> \<open>\<^verbatim>\<open>s.padStart(n, c)\<close> with a one-character pad string\<close>
  "padStart n c s = replicate (n - length s) c @ s"

fun replaceFirst :: "char \<Rightarrow> char \<Rightarrow> string \<Rightarrow> string" where
  \<comment> \<open>\<^verbatim>\<open>s.replace(a, b)\<close> with a string pattern: only the first occurrence is replaced\<close>
  "replaceFirst a b [] = []"
| "replaceFirst a b (c # cs) = (if c = a then b # cs else c # replaceFirst a b cs)"

text \<open>
  A number is \<^verbatim>\<open>NaN\<close>, an infinity or a finite value. Finite values are kept as the exact
  decimal value that was written (the mathematical value of the literal); the rounding of
  that value to binary64 is not part of the model, and the two zeros are one value
  (the scripts only test \<^verbatim>\<open>amount < 0\<close> and store \<^verbatim>\<open>Math.abs(amount)\<close>, which do not tell
  them apart).
\<close>

datatype number = NaN | Finite rat | PosInfinity | NegInfinity

definition isNaN :: "number \<Rightarrow> bool" where
  "isNaN n = (n = NaN)"

fun lessThanZero :: "number \<Rightarrow> bool" where
  \<comment> \<open>\<^verbatim>\<open>n < 0\<close>; every comparison with \<^verbatim>\<open>NaN\<close> is false\<close>
  "lessThanZero NaN = False"
| "lessThanZero (Finite q) = (q < 0)"
| "lessThanZero PosInfinity = False"
| "lessThanZero NegInfinity = True"

fun mathAbs :: "number \<Rightarrow> number" where
  \<comment> \<open>\<^verbatim>\<open>Math.abs\<close>\<close>
  "mathAbs NaN = NaN"
| "mathAbs (Finite q) = Finite \<bar>q\<bar>"
| "mathAbs PosInfinity = PosInfinity"
| "mathAbs NegInfinity = PosInfinity"

definition isDigit :: "char \<Rightarrow> bool" where
  "isDigit c = (48 \<le> (of_char c :: nat) \<and> (of_char c :: nat) \<le> 57)"

definition digitsValue :: "string \<Rightarrow> nat" where
  \<comment> \<open>the value of a run of decimal digits; 0 for the empty run\<close>
  "digitsValue ds = foldl (\<lambda>acc c. 10 * acc + ((of_char c :: nat) - 48)) 0 ds"

definition splitSign :: "string \<Rightarrow> bool \<times> string" where
  \<comment> \<open>an optional leading \<^verbatim>\<open>+\<close> or \<^verbatim>\<open>-\<close>: whether the sign is minus, and the rest\<close>
  "splitSign s =
     (case s of
        [] \<Rightarrow> (False, [])
      | c # cs \<Rightarrow> if c = CHR ''-'' then (True, cs)
                  else if c = CHR ''+'' then (False, cs) else (False, s))"

definition exponentOf :: "string \<Rightarrow> int" where
  \<comment> \<open>an ExponentPart (\<^verbatim>\<open>e\<close> or \<^verbatim>\<open>E\<close>, optional sign, at least one digit) at the head of the
      string gives its value; anything else is not part of the literal and gives 0\<close>
  "exponentOf s =
     (case s of
        [] \<Rightarrow> 0
      | c # cs \<Rightarrow>
          if c = CHR ''e'' \<or> c = CHR ''E'' then
            (let (negative, rest) = splitSign cs; ds = takeWhile isDigit rest
             in if ds = [] then 0
                else if negative then - int (digitsValue ds) else int (digitsValue ds))
          else 0)"

definition pow10 :: "int \<Rightarrow> rat" where
  "pow10 k = (if 0 \<le> k then 10 ^ nat k else 1 / 10 ^ nat (- k))"

definition parseFloat :: "string \<Rightarrow> number" where
  \<comment> \<open>the built-in \<^verbatim>\<open>parseFloat\<close>: leading white space is skipped, the longest prefix that is
      a StrDecimalLiteral is read, and \<^verbatim>\<open>NaN\<close> is returned when there is none\<close>
  "parseFloat inputString =
     (let (negative, unsigned) = splitSign (dropWhile isWhiteSpace inputString)
      in if startsWith unsigned ''Infinity'' then (if negative then NegInfinity else PosInfinity)
         else
           (let intDigits = takeWhile isDigit unsigned;
                rest1 = dropWhile isDigit unsigned;
                (fracDigits, rest2) =
                  (case rest1 of
                     [] \<Rightarrow> ([], [])
                   | c # cs \<Rightarrow> if c = CHR ''.'' then (takeWhile isDigit cs, dropWhile isDigit cs)
                               else ([], rest1))
            in if intDigits = [] \<and> fracDigits = [] then NaN
               else Finite ((if negative then - 1 else 1)
                            * (of_nat (digitsValue (intDigits @ fracDigits)) / 10 ^ length fracDigits)
                            * pow10 (exponentOf rest2))))"

section \<open>Locale parsers\<close>

datatype error = InvalidDateFormat string | InvalidAmountFormat string

definition convertDate :: "string \<Rightarrow> error + string" where
  \<comment> \<open>the three names are bound to the first three parts; a part that is missing
      (\<^verbatim>\<open>undefined\<close>) or empty is falsy and makes the function throw\<close>
  "convertDate dateStr =
     (let parts = split CHR ''/'' dateStr
      in case (element parts 0, element parts 1, element parts 2) of
           (Some day, Some month, Some year) \<Rightarrow>
             if day = [] \<or> month = [] \<or> year = [] then Inl (InvalidDateFormat dateStr)
             else Inr (year @ ''-'' @ padStart 2 CHR ''0'' month @ ''-'' @ padStart 2 CHR ''0'' day)
         | _ \<Rightarrow> Inl (InvalidDateFormat dateStr))"

definition parseAmount :: "string \<Rightarrow> error + number" where
  "parseAmount amountStr =
     (let normalized = replaceFirst CHR '','' CHR ''.'' amountStr;
          amount = parseFloat normalized
      in if isNaN amount then Inl (InvalidAmountFormat amountStr) else Inr amount)"

section \<open>Data model\<close>

record csvRow =
  valorDate :: string
  fecha :: string
  concepto :: string
  movimiento :: string
  importe :: string
  disponible :: string

datatype transactionType = Income | Expense

text \<open>
  The optional fields hold \<open>None\<close> when the property is absent. The field \<^verbatim>\<open>id\<close> is
  called \<open>tid\<close> and \<^verbatim>\<open>type\<close> is called \<open>ttype\<close>.
\<close>

record transaction =
  tid :: string
  date :: string
  description :: string
  descriptionOverride :: "string option"
  amount :: number
  category :: string
  categoryOverride :: "string option"
  account :: string
  ttype :: transactionType

section \<open>Identity hasher\<close>

text \<open>
  Two built-ins of the host are parameters of the model: \<open>sha256Hex\<close>, the hexadecimal
  SHA-256 digest of a string, and \<open>numberToString\<close>, the conversion of a number to a
  string that a template literal applies.
\<close>

definition combined ::
  "(number \<Rightarrow> string) \<Rightarrow> string \<Rightarrow> string \<Rightarrow> string \<Rightarrow> string \<Rightarrow> number \<Rightarrow> string \<Rightarrow> string" where
  "combined numberToString valorDate' fecha' description' movimiento' amount' disponible' =
     valorDate' @ ''|'' @ fecha' @ ''|'' @ description' @ ''|'' @ movimiento' @ ''|''
       @ numberToString (mathAbs amount') @ ''|'' @ disponible'"

definition generateId ::
  "(string \<Rightarrow> string) \<Rightarrow> (number \<Rightarrow> string)
     \<Rightarrow> string \<Rightarrow> string \<Rightarrow> string \<Rightarrow> string \<Rightarrow> number \<Rightarrow> string \<Rightarrow> string" where
  "generateId sha256Hex numberToString valorDate' fecha' description' movimiento' amount' disponible' =
     (let hash = sha256Hex (combined numberToString valorDate' fecha' description' movimiento'
                              amount' disponible')
      in ''tx_'' @ take 12 hash)"

section \<open>Transaction builder\<close>

definition buildTransaction ::
  "(string \<Rightarrow> string) \<Rightarrow> (number \<Rightarrow> string) \<Rightarrow> csvRow \<Rightarrow> error + transaction" where
  \<comment> \<open>the body of the \<^verbatim>\<open>try\<close> block for one row: \<open>Inl\<close> is the exception it throws\<close>
  "buildTransaction sha256Hex numberToString row =
     (case convertDate (valorDate row) of
        Inl e \<Rightarrow> Inl e
      | Inr date' \<Rightarrow>
          (case (if fecha row \<noteq> [] then convertDate (fecha row) else Inr date') of
             Inl e \<Rightarrow> Inl e
           | Inr fecha' \<Rightarrow>
               (case parseAmount (importe row) of
                  Inl e \<Rightarrow> Inl e
                | Inr amount' \<Rightarrow>
                    (let type' = (if lessThanZero amount' then Expense else Income);
                         absoluteAmount = mathAbs amount';
                         id' = generateId sha256Hex numberToString date' fecha' (concepto row)
                                 (movimiento row) absoluteAmount (disponible row)
                     in Inr \<lparr> tid = id', date = date', description = concepto row,
                              descriptionOverride = None, amount = absoluteAmount,
                              category = ''pendiente'', categoryOverride = None,
                              account = ''checking'', ttype = type' \<rparr>))))"

fun transformLoop ::
  "(string \<Rightarrow> string) \<Rightarrow> (number \<Rightarrow> string) \<Rightarrow> transaction list \<Rightarrow> csvRow list \<Rightarrow> transaction list" where
  \<comment> \<open>the \<^verbatim>\<open>for\<close> loop; the \<^verbatim>\<open>catch\<close> clause logs the error and goes on with the next row\<close>
  "transformLoop sha256Hex numberToString transactions [] = transactions"
| "transformLoop sha256Hex numberToString transactions (row # rows) =
     (case buildTransaction sha256Hex numberToString row of
        Inr t \<Rightarrow> transformLoop sha256Hex numberToString (transactions @ [t]) rows
      | Inl e \<Rightarrow> transformLoop sha256Hex numberToString transactions rows)"

definition transformToTransactions ::
  "(string \<Rightarrow> string) \<Rightarrow> (number \<Rightarrow> string) \<Rightarrow> csvRow list \<Rightarrow> transaction list" where
  "transformToTransactions sha256Hex numberToString csvRows =
     transformLoop sha256Hex numberToString [] csvRows"

section \<open>Merge\<close>

text \<open>
  \<open>getTime\<close> stands for \<^verbatim>\<open>new Date(s).getTime()\<close>: the milliseconds since the epoch, or
  \<open>None\<close> for the \<^verbatim>\<open>NaN\<close> of an invalid date. It is a parameter, since the host decides
  which strings outside the ISO format it accepts.
\<close>

definition compareFn :: "(string \<Rightarrow> int option) \<Rightarrow> transaction \<Rightarrow> transaction \<Rightarrow> int" where
  \<comment> \<open>the comparison function given to \<^verbatim>\<open>sort\<close>. With an invalid date \<^verbatim>\<open>dateB !== dateA\<close>
      holds and the difference returned is \<^verbatim>\<open>NaN\<close>, which \<^verbatim>\<open>sort\<close> reads as 0.\<close>
  "compareFn getTime a b =
     (case (getTime (date a), getTime (date b)) of
        (Some dateA, Some dateB) \<Rightarrow> if dateB \<noteq> dateA then dateB - dateA else 0
      | _ \<Rightarrow> 0)"

fun shiftIn :: "('a \<Rightarrow> 'a \<Rightarrow> int) \<Rightarrow> 'a \<Rightarrow> 'a list \<Rightarrow> 'a list" where
  \<comment> \<open>one insertion step; the sorted part is held last element first, and the new element
      moves in front of every element at its end that the comparison puts after it\<close>
  "shiftIn cmp x [] = [x]"
| "shiftIn cmp x (y # earlier) =
     (if cmp y x > 0 then y # shiftIn cmp x earlier else x # y # earlier)"

definition sortWith :: "('a \<Rightarrow> 'a \<Rightarrow> int) \<Rightarrow> 'a list \<Rightarrow> 'a list" where
  \<comment> \<open>\<^verbatim>\<open>Array.prototype.sort\<close> with a comparison function, as a stable insertion sort.
      ECMAScript fixes the result of \<^verbatim>\<open>sort\<close> (sorted and stable) when the comparison is
      consistent, and every stable sort then returns this list.\<close>
  "sortWith cmp xs = rev (foldl (\<lambda>sorted x. shiftIn cmp x sorted) [] xs)"

fun mergeLoop ::
  "string set \<Rightarrow> transaction list \<Rightarrow> nat \<Rightarrow> transaction list \<Rightarrow> transaction list \<times> nat" where
  \<comment> \<open>the \<^verbatim>\<open>for\<close> loop over the new transactions, with its three variables
      \<open>existingIds\<close>, \<open>merged\<close> and \<open>addedCount\<close>\<close>
  "mergeLoop existingIds merged addedCount [] = (merged, addedCount)"
| "mergeLoop existingIds merged addedCount (t # ts) =
     (if tid t \<notin> existingIds
      then mergeLoop (insert (tid t) existingIds) (merged @ [t]) (Suc addedCount) ts
      else mergeLoop existingIds merged addedCount ts)"

definition mergeTransactions ::
  "(string \<Rightarrow> int option) \<Rightarrow> transaction list \<Rightarrow> transaction list \<Rightarrow> transaction list" where
  "mergeTransactions getTime existing newTransactions =
     (let existingIds = set (map tid existing);
          (merged, addedCount) = mergeLoop existingIds existing 0 newTransactions
      in sortWith (compareFn getTime) merged)"

definition addedCountOf :: "transaction list \<Rightarrow> transaction list \<Rightarrow> nat" where
  \<comment> \<open>the value of \<open>addedCount\<close> that \<open>mergeTransactions\<close> logs after its loop\<close>
  "addedCountOf existing newTransactions =
     snd (mergeLoop (set (map tid existing)) existing 0 newTransactions)"

section \<open>Categorization rules\<close>

text \<open>The fields \<^verbatim>\<open>name\<close> and \<^verbatim>\<open>category\<close> of a rule are called \<open>ruleName\<close> and \<open>ruleCategory\<close>.\<close>

record categorizationRule =
  ruleName :: string
  ruleCategory :: string
  match :: "transaction \<Rightarrow> bool"

definition containsAny :: "string \<Rightarrow> string list \<Rightarrow> bool" where
  "containsAny description' keywords =
     (let lowerDescription = toLowerCase description'
      in list_ex (\<lambda>keyword. includesStr lowerDescription (toLowerCase keyword)) keywords)"

definition getCategorizationRules :: "categorizationRule list" where
  "getCategorizationRules =
     [ \<lparr> ruleName = ''Salary'', ruleCategory = ''salary'',
         match = (\<lambda>t. ttype t = Income \<and>
                   containsAny (description t) [''payroll'', ''salary'', ''paycheck'', ''direct deposit'']) \<rparr>,
       \<lparr> ruleName = ''Rent'', ruleCategory = ''rent'',
         match = (\<lambda>t. containsAny (description t) [''rent'', ''lease'']) \<rparr>,
       \<lparr> ruleName = ''Groceries'', ruleCategory = ''groceries'',
         match = (\<lambda>t. containsAny (description t) [''grocery'', ''market'', ''supermart'', ''fresh mart'']) \<rparr>,
       \<lparr> ruleName = ''Dining'', ruleCategory = ''dining'',
         match = (\<lambda>t. containsAny (description t) [''cafe'', ''restaurant'', ''bistro'', ''diner'', ''takeout'']) \<rparr>,
       \<lparr> ruleName = ''Transport'', ruleCategory = ''transport'',
         match = (\<lambda>t. containsAny (description t)
                   [''transit'', ''metro'', ''bus'', ''rail'', ''uber'', ''lyft'', ''fuel'', ''gas'']) \<rparr>,
       \<lparr> ruleName = ''Utilities'', ruleCategory = ''utilities'',
         match = (\<lambda>t. containsAny (description t) [''electric'', ''water'', ''utility'', ''internet'', ''phone'']) \<rparr>,
       \<lparr> ruleName = ''Subscriptions'', ruleCategory = ''subscriptions'',
         match = (\<lambda>t. containsAny (description t)
                   [''subscription'', ''streaming'', ''music'', ''cloud'', ''software'']) \<rparr>,
       \<lparr> ruleName = ''Shopping'', ruleCategory = ''shopping'',
         match = (\<lambda>t. containsAny (description t) [''store'', ''online order'', ''retail'', ''shop'']) \<rparr>,
       \<lparr> ruleName = ''Entertainment'', ruleCategory = ''entertainment'',
         match = (\<lambda>t. containsAny (description t) [''cinema'', ''movie'', ''concert'', ''theater'', ''game'']) \<rparr>,
       \<lparr> ruleName = ''Health'', ruleCategory = ''health'',
         match = (\<lambda>t. containsAny (description t) [''pharmacy'', ''clinic'', ''hospital'', ''dentist'']) \<rparr>,
       \<lparr> ruleName = ''Travel'', ruleCategory = ''travel'',
         match = (\<lambda>t. containsAny (description t) [''airlines'', ''hotel'', ''airbnb'', ''booking'']) \<rparr>,
       \<lparr> ruleName = ''Education'', ruleCategory = ''education'',
         match = (\<lambda>t. containsAny (description t) [''course'', ''tuition'', ''academy'', ''workshop'']) \<rparr>,
       \<lparr> ruleName = ''Pets'', ruleCategory = ''pets'',
         match = (\<lambda>t. containsAny (description t) [''pet'', ''vet'', ''pet food'']) \<rparr>,
       \<lparr> ruleName = ''Savings'', ruleCategory = ''savings'',
         match = (\<lambda>t. containsAny (description t) [''transfer to savings'', ''savings transfer'']) \<rparr> ]"

fun firstMatch :: "categorizationRule list \<Rightarrow> transaction \<Rightarrow> string" where
  \<comment> \<open>the \<^verbatim>\<open>for\<close> loop over the rules with its early \<^verbatim>\<open>return\<close>, and the fallback after it\<close>
  "firstMatch [] t = ''pendiente''"
| "firstMatch (rule # rules) t = (if match rule t then ruleCategory rule else firstMatch rules t)"

definition categorizeTransaction :: "transaction \<Rightarrow> string" where
  "categorizeTransaction t = (let rules = getCategorizationRules in firstMatch rules t)"

definition applyRule :: "bool \<Rightarrow> transaction \<Rightarrow> transaction" where
  \<comment> \<open>the function mapped over the array; \<^verbatim>\<open>x && x.trim()\<close> is truthy when the override is
      present, non-empty and non-empty after trimming\<close>
  "applyRule preserveManualCategories t =
     (if (case categoryOverride t of None \<Rightarrow> False | Some s \<Rightarrow> s \<noteq> [] \<and> trim s \<noteq> []) then t
      else if preserveManualCategories \<and> category t \<noteq> ''pendiente'' then t
      else (let newCategory = categorizeTransaction t in t\<lparr>category := newCategory\<rparr>))"

definition applyRulesToTransactions :: "transaction list \<Rightarrow> bool \<Rightarrow> transaction list" where
  "applyRulesToTransactions transactions preserveManualCategories =
     map (applyRule preserveManualCategories) transactions"

section \<open>Notions used to state the properties\<close>

definition succeeds :: "error + 'a \<Rightarrow> bool" where
  \<comment> \<open>the call returns instead of throwing\<close>
  "succeeds r = (case r of Inl e \<Rightarrow> False | Inr v \<Rightarrow> True)"

definition wellFormedRow :: "csvRow \<Rightarrow> bool" where
  \<comment> \<open>neither date conversion nor the amount parser throws on the row; an empty secondary
      date is never converted\<close>
  "wellFormedRow row =
     (succeeds (convertDate (valorDate row))
      \<and> (fecha row = [] \<or> succeeds (convertDate (fecha row)))
      \<and> succeeds (parseAmount (importe row)))"

definition firstOccurrences :: "string set \<Rightarrow> transaction list \<Rightarrow> transaction list" where
  \<comment> \<open>the records of a list, in order, whose id is not among the known ids and does not
      occur at an earlier position of the list\<close>
  "firstOccurrences known ts =
     map (\<lambda>k. ts ! k)
       (filter (\<lambda>k. tid (ts ! k) \<notin> known \<and> tid (ts ! k) \<notin> tid ` set (take k ts))
          [0..<length ts])"

definition descByDate :: "(string \<Rightarrow> int option) \<Rightarrow> transaction list \<Rightarrow> bool" where
  \<comment> \<open>sorted by date, newest first: of two records the earlier one in the list has a time
      that is at least the time of the later one (a comparison with \<^verbatim>\<open>NaN\<close> is false)\<close>
  "descByDate getTime ts =
     sorted_wrt (\<lambda>a b. case (getTime (date a), getTime (date b)) of
                          (Some timeA, Some timeB) \<Rightarrow> timeB \<le> timeA
                        | _ \<Rightarrow> False) ts"

definition ascByDate :: "(string \<Rightarrow> int option) \<Rightarrow> transaction list \<Rightarrow> bool" where
  \<comment> \<open>the same order read on the reversed list, as the insertion step holds it\<close>
  "ascByDate getTime ts = descByDate getTime (rev ts)"

subsection \<open>Example data\<close>

definition exampleRow :: csvRow where
  "exampleRow =
     \<lparr> valorDate = ''15/03/2024'', fecha = ''15/03/2024'', concepto = ''SUPERMART MADRID'',
       movimiento = ''COMPRA TARJETA'', importe = ''-45,30'', disponible = ''1234,56'' \<rparr>"

definition exampleTransaction :: transaction where
  "exampleTransaction =
     \<lparr> tid = ''tx_0123456789ab'', date = ''2024-03-15'', description = ''SUPERMART MADRID'',
       descriptionOverride = None, amount = Finite (453 / 10), category = ''pendiente'',
       categoryOverride = None, account = ''checking'', ttype = Expense \<rparr>"

definition dated :: "string \<Rightarrow> string \<Rightarrow> transaction" where
  \<comment> \<open>the example transaction with another id and date\<close>
  "dated i d = exampleTransaction\<lparr>tid := i, date := d\<rparr>"

definition exampleTime :: "string \<Rightarrow> int option" where
  \<comment> \<open>\<^verbatim>\<open>new Date(s).getTime()\<close> at the strings the examples use: three ISO dates (midnight
      UTC) and the empty string, which is an invalid date\<close>
  "exampleTime s =
     (if s = ''2024-01-01'' then Some 1704067200000
      else if s = ''2024-03-15'' then Some 1710460800000
      else if s = ''2024-12-31'' then Some 1735603200000
      else None)"

definition exampleNumberToString :: "number \<Rightarrow> string" where
  \<comment> \<open>the string of a number at the values the examples use\<close>
  "exampleNumberToString x =
     (if x = Finite (453 / 10) then ''45.3'' else if x = Finite 0 then ''0'' else ''NaN'')"

section \<open>Properties of the locale parsers and the transaction builder\<close>

lemma replaceFirst_append:
  "a \<notin> set xs \<Longrightarrow> replaceFirst a b (xs @ a # ys) = xs @ b # ys"
  by (induction xs) auto

lemmas parser_defs =
  parseAmount_def parseFloat_def splitSign_def isWhiteSpace_def isDigit_def digitsValue_def
  exponentOf_def pow10_def isNaN_def

text \<open>
  C9. \<open>parseAmount\<close> replaces only the first comma: on \<^verbatim>\<open>1,2,3\<close> the normalized string is
  \<^verbatim>\<open>1.2,3\<close>, the call does not throw, and the number returned is 1.2, the value read up
  to the second comma (the same as for \<^verbatim>\<open>1,2\<close>).
\<close>

theorem parseAmount_first_comma_only:
  "replaceFirst CHR '','' CHR ''.'' ''1,2,3'' = ''1.2,3''
   \<and> parseFloat ''1.2,3'' = Finite (6 / 5)
   \<and> parseAmount ''1,2,3'' = Inr (Finite (6 / 5))
   \<and> parseAmount ''1,2,3'' = parseAmount ''1,2''"
  by (simp add: parser_defs)

lemma transformLoop_acc:
  "transformLoop h n acc rows =
     acc @ concat (map (\<lambda>row. case buildTransaction h n row of Inl e \<Rightarrow> [] | Inr t \<Rightarrow> [t]) rows)"
  by (induction rows arbitrary: acc) (auto split: sum.splits)

lemma buildTransaction_succeeds:
  "succeeds (buildTransaction h n row) = wellFormedRow row"
  by (auto simp: buildTransaction_def wellFormedRow_def succeeds_def Let_def split: sum.splits)

lemma concat_map_filter_projr:
  "concat (map (\<lambda>row. case f row of Inl e \<Rightarrow> [] | Inr t \<Rightarrow> [t]) rows)
     = map (\<lambda>row. projr (f row)) (filter (\<lambda>row. succeeds (f row)) rows)"
  by (induction rows) (auto simp: succeeds_def split: sum.splits)

text \<open>
  C7. \<open>transformToTransactions\<close> returns a list for every list of rows: the rows on which a
  date conversion or the amount parser throws are skipped, and the result is the list of
  the transactions built from the well-formed rows, in the order of the rows. A row is
  well-formed when \<open>convertDate\<close> returns on its value date and on its secondary date (which
  is converted only when it is not empty) and \<open>parseAmount\<close> returns on its amount; that is
  exactly when the body of the loop builds a transaction from it, and otherwise the body
  throws.
\<close>

theorem transformToTransactions_skips_malformed_rows:
  "transformToTransactions h n rows
     = map (\<lambda>row. projr (buildTransaction h n row)) (filter wellFormedRow rows)
   \<and> (wellFormedRow row \<longleftrightarrow> (\<exists>t. buildTransaction h n row = Inr t))
   \<and> (\<not> wellFormedRow row \<longleftrightarrow> (\<exists>e. buildTransaction h n row = Inl e))"
proof -
  have "transformToTransactions h n rows
     = map (\<lambda>row. projr (buildTransaction h n row))
         (filter (\<lambda>row. succeeds (buildTransaction h n row)) rows)"
    by (simp add: transformToTransactions_def transformLoop_acc concat_map_filter_projr)
  moreover have "wellFormedRow row \<longleftrightarrow> (\<exists>t. buildTransaction h n row = Inr t)"
    unfolding buildTransaction_succeeds [symmetric, of row h n]
    by (cases "buildTransaction h n row") (simp_all add: succeeds_def)
  moreover have "\<not> wellFormedRow row \<longleftrightarrow> (\<exists>e. buildTransaction h n row = Inl e)"
    unfolding buildTransaction_succeeds [symmetric, of row h n]
    by (cases "buildTransaction h n row") (simp_all add: succeeds_def)
  ultimately show ?thesis by (simp add: buildTransaction_succeeds)
qed

text \<open>
  The example row of the specification: the date is converted, the amount is stored as an
  absolute value, the sign gives the type and the category starts as pending. Rows with a
  missing date part, a secondary date in another format or an amount that is not a number
  are not well-formed; a row with an empty secondary date is.
\<close>

lemma element_numeral: "element (x # xs) (numeral k) = element xs (pred_numeral k)"
  by (simp add: numeral_eq_Suc)

lemma convertDate_examples:
  "convertDate ''15/03/2024'' = Inr ''2024-03-15''"
  "convertDate ''1/3/2024'' = Inr ''2024-03-01''"
  "convertDate ''15/03'' = Inl (InvalidDateFormat ''15/03'')"
  "convertDate ''2024-03-15'' = Inl (InvalidDateFormat ''2024-03-15'')"
  "convertDate ''15//2024'' = Inl (InvalidDateFormat ''15//2024'')"
  by (simp_all add: convertDate_def padStart_def element_numeral)

lemma parseAmount_examples:
  "parseAmount ''-45,30'' = Inr (Finite (- 453 / 10))"
  "parseAmount ''n/a'' = Inl (InvalidAmountFormat ''n/a'')"
  "parseAmount ''-0,00'' = Inr (Finite 0)"
  by (simp_all add: parser_defs)

lemma wellFormedRow_examples:
  "wellFormedRow exampleRow"
  "wellFormedRow (exampleRow\<lparr>fecha := ''''\<rparr>)"
  "wellFormedRow (exampleRow\<lparr>importe := ''-0,00''\<rparr>)"
  "\<not> wellFormedRow (exampleRow\<lparr>valorDate := ''15/03''\<rparr>)"
  "\<not> wellFormedRow (exampleRow\<lparr>fecha := ''2024-03-15''\<rparr>)"
  "\<not> wellFormedRow (exampleRow\<lparr>importe := ''n/a''\<rparr>)"
  by (simp_all add: wellFormedRow_def succeeds_def exampleRow_def convertDate_examples
        parseAmount_examples)

lemma buildTransaction_example:
  "buildTransaction h n exampleRow =
     Inr \<lparr> tid = generateId h n ''2024-03-15'' ''2024-03-15'' ''SUPERMART MADRID''
                   ''COMPRA TARJETA'' (Finite (453 / 10)) ''1234,56'',
           date = ''2024-03-15'', description = ''SUPERMART MADRID'',
           descriptionOverride = None, amount = Finite (453 / 10),
           category = ''pendiente'', categoryOverride = None,
           account = ''checking'', ttype = Expense \<rparr>"
  by (simp add: buildTransaction_def exampleRow_def convertDate_examples parseAmount_examples
        Let_def)

text \<open>
  C10. When the amount string of a row parses to zero, the transaction built from the row
  has type income and amount 0: the expense branch needs a parsed amount below zero.
\<close>

theorem zero_amount_is_income:
  assumes "parseAmount (importe row) = Inr (Finite 0)"
    and "buildTransaction h n row = Inr t"
  shows "ttype t = Income \<and> amount t = Finite 0 \<and> transformToTransactions h n [row] = [t]"
  using assms
  by (auto simp: buildTransaction_def transformToTransactions_def Let_def
           split: sum.splits if_splits)

theorem zero_amount_is_income_witness:
  "parseAmount (importe (exampleRow\<lparr>importe := ''-0,00''\<rparr>)) = Inr (Finite 0)
   \<and> (\<forall>h n. \<exists>t. buildTransaction h n (exampleRow\<lparr>importe := ''-0,00''\<rparr>) = Inr t
          \<and> ttype t = Income \<and> amount t = Finite 0
          \<and> transformToTransactions h n [exampleRow\<lparr>importe := ''-0,00''\<rparr>] = [t])"
proof -
  let ?row = "exampleRow\<lparr>importe := ''-0,00''\<rparr>"
  have zero: "parseAmount (importe ?row) = Inr (Finite 0)"
    by (simp add: exampleRow_def parser_defs)
  have "wellFormedRow ?row"
    by (rule wellFormedRow_examples)
  then have built: "\<exists>t. buildTransaction h n ?row = Inr t" for h n
    using buildTransaction_succeeds [of h n ?row]
    by (cases "buildTransaction h n ?row") (simp_all add: succeeds_def)
  show ?thesis
  proof (intro conjI allI)
    show "parseAmount (importe ?row) = Inr (Finite 0)" by (rule zero)
  next
    fix h n
    from built obtain t where t: "buildTransaction h n ?row = Inr t" by blast
    from zero_amount_is_income [OF zero t] t
    show "\<exists>t. buildTransaction h n ?row = Inr t \<and> ttype t = Income \<and> amount t = Finite 0
             \<and> transformToTransactions h n [?row] = [t]"
      by blast
  qed
qed

section \<open>Properties of the identity hasher\<close>

lemma combined_eq_generateId:
  "combined n v1 f1 d1 m1 a1 b1 = combined n v2 f2 d2 m2 a2 b2
     \<Longrightarrow> generateId h n v1 f1 d1 m1 a1 b1 = generateId h n v2 f2 d2 m2 a2 b2"
  by (simp add: generateId_def)

lemma split_at_delimiter:
  "c \<notin> set x1 \<Longrightarrow> c \<notin> set x2 \<Longrightarrow> x1 @ c # r1 = x2 @ c # r2 \<Longrightarrow> x1 = x2 \<and> r1 = r2"
proof (induction x1 arbitrary: x2)
  case Nil
  then show ?case by (cases x2) auto
next
  case (Cons a x1)
  then show ?case by (cases x2) auto
qed

lemma combined_inj:
  assumes "CHR ''|'' \<notin> set v1 \<union> set f1 \<union> set d1 \<union> set m1 \<union> set (n (mathAbs a1))"
    and "CHR ''|'' \<notin> set v2 \<union> set f2 \<union> set d2 \<union> set m2 \<union> set (n (mathAbs a2))"
    and "combined n v1 f1 d1 m1 a1 b1 = combined n v2 f2 d2 m2 a2 b2"
  shows "v1 = v2 \<and> f1 = f2 \<and> d1 = d2 \<and> m1 = m2 \<and> n (mathAbs a1) = n (mathAbs a2) \<and> b1 = b2"
proof -
  let ?c = "CHR ''|''"
  from assms(3) have
    "v1 @ ?c # (f1 @ ?c # (d1 @ ?c # (m1 @ ?c # (n (mathAbs a1) @ ?c # b1))))
       = v2 @ ?c # (f2 @ ?c # (d2 @ ?c # (m2 @ ?c # (n (mathAbs a2) @ ?c # b2))))"
    by (simp add: combined_def)
  with assms(1,2) have v: "v1 = v2"
    and "f1 @ ?c # (d1 @ ?c # (m1 @ ?c # (n (mathAbs a1) @ ?c # b1)))
       = f2 @ ?c # (d2 @ ?c # (m2 @ ?c # (n (mathAbs a2) @ ?c # b2)))"
    using split_at_delimiter [of ?c v1 v2] by auto
  with assms(1,2) have f: "f1 = f2"
    and "d1 @ ?c # (m1 @ ?c # (n (mathAbs a1) @ ?c # b1))
       = d2 @ ?c # (m2 @ ?c # (n (mathAbs a2) @ ?c # b2))"
    using split_at_delimiter [of ?c f1 f2] by auto
  with assms(1,2) have d: "d1 = d2"
    and "m1 @ ?c # (n (mathAbs a1) @ ?c # b1) = m2 @ ?c # (n (mathAbs a2) @ ?c # b2)"
    using split_at_delimiter [of ?c d1 d2] by auto
  with assms(1,2) have m: "m1 = m2"
    and "n (mathAbs a1) @ ?c # b1 = n (mathAbs a2) @ ?c # b2"
    using split_at_delimiter [of ?c m1 m2] by auto
  with assms(1,2) have "n (mathAbs a1) = n (mathAbs a2) \<and> b1 = b2"
    using split_at_delimiter [of ?c "n (mathAbs a1)" "n (mathAbs a2)"] by auto
  with v f d m show ?thesis by simp
qed

text \<open>
  C4, as stated, fails: the fields are joined with \<^verbatim>\<open>|\<close> and nothing keeps that character
  out of them, so two tuples that differ in description and movement detail can have the
  same joined string, and then the same id, whatever the digest function is.
\<close>

theorem generateId_delimiter_collision:
  "(''2024-03-15'', ''2024-03-15'', ''PAGO|TARJETA'', ''SUPER'', Finite (453 / 10), ''1234,56'')
     \<noteq> (''2024-03-15'', ''2024-03-15'', ''PAGO'', ''TARJETA|SUPER'', Finite (453 / 10), ''1234,56'')
   \<and> (\<forall>sha256Hex numberToString.
        generateId sha256Hex numberToString
          ''2024-03-15'' ''2024-03-15'' ''PAGO|TARJETA'' ''SUPER'' (Finite (453 / 10)) ''1234,56''
        = generateId sha256Hex numberToString
          ''2024-03-15'' ''2024-03-15'' ''PAGO'' ''TARJETA|SUPER'' (Finite (453 / 10)) ''1234,56'')"
  by (simp add: generateId_def combined_def)

text \<open>
  The id keeps 12 characters of the digest, so there are finitely many ids: whatever the
  digest function is, two descriptions without \<^verbatim>\<open>|\<close> give the same id with all other fields
  equal.
\<close>

lemma generateId_truncation_collision:
  "\<exists>d1 d2. d1 \<noteq> d2 \<and> CHR ''|'' \<notin> set d1 \<and> CHR ''|'' \<notin> set d2
     \<and> generateId h n v f d1 m a b = generateId h n v f d2 m a b"
proof -
  let ?F = "\<lambda>k::nat. generateId h n v f (replicate k CHR ''x'') m a b"
  have "range ?F \<subseteq> {s. set s \<subseteq> UNIV \<and> length s \<le> 15}"
    by (auto simp: generateId_def)
  moreover have "finite {s :: string. set s \<subseteq> UNIV \<and> length s \<le> 15}"
    by (rule finite_lists_length_le) simp
  ultimately have "finite (range ?F)" by (rule finite_subset)
  then have "\<not> inj ?F" using finite_imageD by fastforce
  then obtain k1 k2 where "k1 \<noteq> k2" "?F k1 = ?F k2" by (auto simp: inj_on_def)
  moreover from \<open>k1 \<noteq> k2\<close> have "replicate k1 CHR ''x'' \<noteq> replicate k2 CHR ''x''"
    by (metis length_replicate)
  ultimately show ?thesis
    by (intro exI [of _ "replicate k1 CHR ''x''"] exI [of _ "replicate k2 CHR ''x''"]) auto
qed

text \<open>
  C4, amended. \<open>generateId\<close> is a function of the six fields, and depends on them only
  through their joined string, in which the amount stands as the string of its absolute
  value: tuples with the same joined string, so identical tuples, have the same id, which
  is \<^verbatim>\<open>tx_\<close> followed by the first 12 characters of the digest of the joined string. When
  \<^verbatim>\<open>|\<close> occurs in none of the first four fields and not in the string of the amount, two
  tuples that differ in a field have different joined strings.
\<close>

theorem generateId_joined_string:
  "(combined n v1 f1 d1 m1 a1 b1 = combined n v2 f2 d2 m2 a2 b2
      \<longrightarrow> generateId h n v1 f1 d1 m1 a1 b1 = generateId h n v2 f2 d2 m2 a2 b2)
   \<and> (CHR ''|'' \<notin> set v1 \<union> set f1 \<union> set d1 \<union> set m1 \<union> set (n (mathAbs a1))
       \<and> CHR ''|'' \<notin> set v2 \<union> set f2 \<union> set d2 \<union> set m2 \<union> set (n (mathAbs a2))
       \<and> (v1, f1, d1, m1, n (mathAbs a1), b1) \<noteq> (v2, f2, d2, m2, n (mathAbs a2), b2)
      \<longrightarrow> combined n v1 f1 d1 m1 a1 b1 \<noteq> combined n v2 f2 d2 m2 a2 b2)
   \<and> generateId h n v1 f1 d1 m1 a1 b1 = ''tx_'' @ take 12 (h (combined n v1 f1 d1 m1 a1 b1))"
  using combined_inj [of v1 f1 d1 m1 n a1 v2 f2 d2 m2 a2 b1 b2]
    combined_eq_generateId [of n v1 f1 d1 m1 a1 b1 v2 f2 d2 m2 a2 b2 h]
  by (auto simp: generateId_def)

theorem generateId_joined_string_witness:
  "combined exampleNumberToString ''2024-03-15'' ''2024-03-15'' ''SUPERMART MADRID'' ''COMPRA TARJETA''
       (Finite (453 / 10)) ''1234,56''
     = combined exampleNumberToString ''2024-03-15'' ''2024-03-15'' ''SUPERMART MADRID'' ''COMPRA TARJETA''
       (Finite (- 453 / 10)) ''1234,56''
   \<and> (\<forall>h. generateId h exampleNumberToString ''2024-03-15'' ''2024-03-15'' ''SUPERMART MADRID''
             ''COMPRA TARJETA'' (Finite (453 / 10)) ''1234,56''
          = generateId h exampleNumberToString ''2024-03-15'' ''2024-03-15'' ''SUPERMART MADRID''
             ''COMPRA TARJETA'' (Finite (- 453 / 10)) ''1234,56'')
   \<and> combined exampleNumberToString ''2024-03-15'' ''2024-03-15'' ''SUPERMART MADRID'' ''COMPRA TARJETA''
       (Finite (453 / 10)) ''1234,56''
     \<noteq> combined exampleNumberToString ''2024-03-15'' ''2024-03-15'' ''SUPERMART MADRID'' ''COMPRA TARJETA''
       (Finite (453 / 10)) ''1234,57''"
proof -
  let ?c = "\<lambda>a b. combined exampleNumberToString ''2024-03-15'' ''2024-03-15'' ''SUPERMART MADRID''
       ''COMPRA TARJETA'' a b"
  have same: "?c (Finite (453 / 10)) ''1234,56'' = ?c (Finite (- 453 / 10)) ''1234,56''"
    by (simp add: combined_def)
  have nodelim: "CHR ''|'' \<notin> set ''2024-03-15'' \<union> set ''2024-03-15'' \<union> set ''SUPERMART MADRID''
       \<union> set ''COMPRA TARJETA'' \<union> set (exampleNumberToString (mathAbs (Finite (453 / 10))))"
    by (simp add: exampleNumberToString_def)
  have differ: "(''2024-03-15'', ''2024-03-15'', ''SUPERMART MADRID'', ''COMPRA TARJETA'',
        exampleNumberToString (mathAbs (Finite (453 / 10))), ''1234,56'')
      \<noteq> (''2024-03-15'', ''2024-03-15'', ''SUPERMART MADRID'', ''COMPRA TARJETA'',
        exampleNumberToString (mathAbs (Finite (453 / 10))), ''1234,57'')"
    by simp
  have ids: "generateId h exampleNumberToString ''2024-03-15'' ''2024-03-15'' ''SUPERMART MADRID''
             ''COMPRA TARJETA'' (Finite (453 / 10)) ''1234,56''
          = generateId h exampleNumberToString ''2024-03-15'' ''2024-03-15'' ''SUPERMART MADRID''
             ''COMPRA TARJETA'' (Finite (- 453 / 10)) ''1234,56''" for h
    using generateId_joined_string [of exampleNumberToString "''2024-03-15''" "''2024-03-15''" "''SUPERMART MADRID''"
        "''COMPRA TARJETA''" "Finite (453 / 10)" "''1234,56''"
        "''2024-03-15''" "''2024-03-15''" "''SUPERMART MADRID''"
        "''COMPRA TARJETA''" "Finite (- 453 / 10)" "''1234,56''" h] same
    by blast
  have neq: "?c (Finite (453 / 10)) ''1234,56'' \<noteq> ?c (Finite (453 / 10)) ''1234,57''"
    using generateId_joined_string [of exampleNumberToString "''2024-03-15''" "''2024-03-15''" "''SUPERMART MADRID''"
        "''COMPRA TARJETA''" "Finite (453 / 10)" "''1234,56''"
        "''2024-03-15''" "''2024-03-15''" "''SUPERMART MADRID''"
        "''COMPRA TARJETA''" "Finite (453 / 10)" "''1234,57''"] nodelim differ
    by blast
  from same ids neq show ?thesis by blast
qed

section \<open>Properties of the merge\<close>

subsection \<open>The loop and the sort\<close>

lemma firstOccurrences_Nil: "firstOccurrences known [] = []"
  by (simp add: firstOccurrences_def)

lemma firstOccurrences_Cons:
  "firstOccurrences known (t # ts) =
     (if tid t \<in> known then firstOccurrences known ts
      else t # firstOccurrences (insert (tid t) known) ts)"
proof -
  have upt: "[0..<length (t # ts)] = 0 # map Suc [0..<length ts]"
    by (simp add: upt_conv_Cons map_Suc_upt del: upt_Suc)
  show ?thesis
    unfolding firstOccurrences_def upt
    by (auto simp: filter_map comp_def intro!: arg_cong2 [where f = map] filter_cong)
qed

lemma mergeLoop_firstOccurrences:
  "mergeLoop known merged c ts
     = (merged @ firstOccurrences known ts, c + length (firstOccurrences known ts))"
  by (induction ts arbitrary: known merged c)
     (simp_all add: firstOccurrences_Nil firstOccurrences_Cons)

lemma length_firstOccurrences:
  "length (firstOccurrences known ts) = card (tid ` set ts - known)"
proof (induction ts arbitrary: known)
  case Nil
  then show ?case by (simp add: firstOccurrences_Nil)
next
  case (Cons t ts)
  show ?case
  proof (cases "tid t \<in> known")
    case True
    then have "tid ` set (t # ts) - known = tid ` set ts - known" by auto
    with True Cons show ?thesis by (simp add: firstOccurrences_Cons)
  next
    case False
    then have "tid ` set (t # ts) - known = insert (tid t) (tid ` set ts - insert (tid t) known)"
      by auto
    moreover have "tid t \<notin> tid ` set ts - insert (tid t) known" by simp
    ultimately have "card (tid ` set (t # ts) - known)
        = Suc (card (tid ` set ts - insert (tid t) known))"
      by (simp del: set_simps image_insert)
    with False Cons show ?thesis by (simp add: firstOccurrences_Cons)
  qed
qed

lemma set_firstOccurrences: "set (firstOccurrences known ts) \<subseteq> set ts"
  by (induction ts arbitrary: known)
     (auto simp: firstOccurrences_Nil firstOccurrences_Cons split: if_splits)

lemma firstOccurrences_unknown:
  "t \<in> set (firstOccurrences known ts) \<Longrightarrow> tid t \<notin> known"
  by (auto simp: firstOccurrences_def)


lemma shiftIn_mset: "mset (shiftIn cmp x ys) = add_mset x (mset ys)"
  by (induction ys) auto

lemma set_shiftIn: "set (shiftIn cmp x ys) = insert x (set ys)"
  by (induction ys) auto

lemma sortWith_mset: "mset (sortWith cmp xs) = mset xs"
  unfolding sortWith_def
  by (induction xs rule: rev_induct) (simp_all add: shiftIn_mset)

lemma mergeTransactions_eq:
  "mergeTransactions g E I = sortWith (compareFn g) (E @ firstOccurrences (tid ` set E) I)"
  by (simp add: mergeTransactions_def mergeLoop_firstOccurrences)



lemma ascByDate_alt:
  "ascByDate g ts = sorted_wrt (\<lambda>a b. case (g (date a), g (date b)) of
                          (Some timeA, Some timeB) \<Rightarrow> timeA \<le> timeB
                        | _ \<Rightarrow> False) ts"
  unfolding ascByDate_def descByDate_def sorted_wrt_rev
  by (rule arg_cong2 [where f = sorted_wrt]) (auto simp: fun_eq_iff split: option.splits)

lemma shiftIn_asc:
  assumes "g (date x) \<noteq> None" and "\<forall>y\<in>set ys. g (date y) \<noteq> None" and "ascByDate g ys"
  shows "ascByDate g (shiftIn (compareFn g) x ys)"
  using assms
proof (induction ys)
  case Nil
  then show ?case by (simp add: ascByDate_alt)
next
  case (Cons y ys)
  then have IH: "ascByDate g (shiftIn (compareFn g) x ys)"
    by (simp add: ascByDate_alt)
  from Cons.prems obtain tx ty where tx: "g (date x) = Some tx" and ty: "g (date y) = Some ty"
    by auto
  show ?case
  proof (cases "compareFn g y x > 0")
    case True
    then have "ty \<le> tx" by (simp add: compareFn_def tx ty split: if_splits)
    with True IH Cons.prems show ?thesis
      by (auto simp: ascByDate_alt set_shiftIn tx ty)
  next
    case False
    then have "tx \<le> ty" by (simp add: compareFn_def tx ty split: if_splits)
    with False Cons.prems show ?thesis
      by (fastforce simp: ascByDate_alt tx ty split: option.splits)
  qed
qed

lemma shiftIn_filter:
  "filter (\<lambda>t. g (date t) = v) (shiftIn (compareFn g) x ys)
     = (if g (date x) = v then x # filter (\<lambda>t. g (date t) = v) ys
        else filter (\<lambda>t. g (date t) = v) ys)"
  by (induction ys) (auto simp: compareFn_def split: option.splits if_splits)

lemma sortWith_stable:
  "filter (\<lambda>t. g (date t) = v) (sortWith (compareFn g) xs) = filter (\<lambda>t. g (date t) = v) xs"
proof -
  have "filter (\<lambda>t. g (date t) = v) (foldl (\<lambda>sorted x. shiftIn (compareFn g) x sorted) [] xs)
          = rev (filter (\<lambda>t. g (date t) = v) xs)"
    by (induction xs rule: rev_induct) (simp_all add: shiftIn_filter)
  then show ?thesis
    by (simp add: sortWith_def flip: rev_filter)
qed

lemma sortWith_desc:
  assumes "\<forall>t\<in>set xs. g (date t) \<noteq> None"
  shows "descByDate g (sortWith (compareFn g) xs)"
proof -
  have "\<forall>t\<in>set xs. g (date t) \<noteq> None \<Longrightarrow>
        ascByDate g (foldl (\<lambda>sorted x. shiftIn (compareFn g) x sorted) [] xs)
        \<and> set (foldl (\<lambda>sorted x. shiftIn (compareFn g) x sorted) [] xs) = set xs"
  proof (induction xs rule: rev_induct)
    case Nil
    then show ?case by (simp add: ascByDate_alt)
  next
    case (snoc x xs)
    then show ?case by (simp add: shiftIn_asc set_shiftIn)
  qed
  with assms show ?thesis by (simp add: sortWith_def ascByDate_def)
qed

subsection \<open>Conservation\<close>

text \<open>
  C3, as stated, fails: with an empty store and two incoming records that share an id, the
  claimed length is 0 + 2, but the loop records the id of the first one and skips the
  second, so one record is added and the second incoming record is not in the result.
\<close>

theorem merge_skips_repeated_incoming_id:
  "length (mergeTransactions exampleTime []
      [dated ''tx_d'' ''2024-03-15'', dated ''tx_d'' ''2024-01-01'']) = 1
   \<and> length ([] :: transaction list)
       + length (filter (\<lambda>t. tid t \<notin> tid ` set [])
           [dated ''tx_d'' ''2024-03-15'', dated ''tx_d'' ''2024-01-01'']) = 2
   \<and> dated ''tx_d'' ''2024-01-01'' \<notin> set (mergeTransactions exampleTime []
      [dated ''tx_d'' ''2024-03-15'', dated ''tx_d'' ''2024-01-01''])"
  by code_simp

text \<open>
  C3, amended. The result of \<open>mergeTransactions\<close> holds every record of the existing list
  (with its multiplicity) and, besides them, exactly the incoming records whose id is
  absent from the existing list and from all earlier incoming records: one record, the
  first, for each such id. So the length of the result, and the count of added records,
  is the length of the existing list plus the number of distinct incoming ids that are
  absent from it. A record of the result whose id occurs in the existing list is a record
  of the existing list: on a collision the existing record is the one kept.
\<close>

theorem merge_conservation:
  "mset (mergeTransactions g E I) = mset E + mset (firstOccurrences (tid ` set E) I)
   \<and> length (mergeTransactions g E I) = length E + card (tid ` set I - tid ` set E)
   \<and> addedCountOf E I = card (tid ` set I - tid ` set E)
   \<and> (t \<in> set (mergeTransactions g E I) \<and> tid t \<in> tid ` set E \<longrightarrow> t \<in> set E)"
proof -
  have m: "mset (mergeTransactions g E I) = mset E + mset (firstOccurrences (tid ` set E) I)"
    by (simp add: mergeTransactions_eq sortWith_mset)
  have "length (mergeTransactions g E I) = size (mset (mergeTransactions g E I))"
    by simp
  also have "\<dots> = length E + card (tid ` set I - tid ` set E)"
    unfolding m by (simp add: length_firstOccurrences)
  finally have l: "length (mergeTransactions g E I) = length E + card (tid ` set I - tid ` set E)" .
  have c: "addedCountOf E I = card (tid ` set I - tid ` set E)"
    by (simp add: addedCountOf_def mergeLoop_firstOccurrences length_firstOccurrences)
  have "set (mergeTransactions g E I) = set E \<union> set (firstOccurrences (tid ` set E) I)"
    using m by (metis set_mset_mset set_mset_union)
  then have k: "t \<in> set (mergeTransactions g E I) \<and> tid t \<in> tid ` set E \<longrightarrow> t \<in> set E"
    using firstOccurrences_unknown [of t "tid ` set E" I] by blast
  from m l c k show ?thesis by blast
qed

theorem merge_conservation_witness:
  "dated ''tx_a'' ''2024-01-01'' \<in> set (mergeTransactions exampleTime
       [dated ''tx_a'' ''2024-01-01'']
       [dated ''tx_a'' ''2024-12-31'', dated ''tx_d'' ''2024-03-15'', dated ''tx_d'' ''2024-01-01''])
   \<and> tid (dated ''tx_a'' ''2024-01-01'') \<in> tid ` set [dated ''tx_a'' ''2024-01-01'']
   \<and> dated ''tx_a'' ''2024-01-01'' \<in> set [dated ''tx_a'' ''2024-01-01'']
   \<and> length (mergeTransactions exampleTime
       [dated ''tx_a'' ''2024-01-01'']
       [dated ''tx_a'' ''2024-12-31'', dated ''tx_d'' ''2024-03-15'', dated ''tx_d'' ''2024-01-01''])
      = length [dated ''tx_a'' ''2024-01-01'']
        + card (tid ` set [dated ''tx_a'' ''2024-12-31'', dated ''tx_d'' ''2024-03-15'',
                           dated ''tx_d'' ''2024-01-01'']
                - tid ` set [dated ''tx_a'' ''2024-01-01''])
   \<and> mergeTransactions exampleTime
       [dated ''tx_a'' ''2024-01-01'']
       [dated ''tx_a'' ''2024-12-31'', dated ''tx_d'' ''2024-03-15'', dated ''tx_d'' ''2024-01-01'']
      = [dated ''tx_d'' ''2024-03-15'', dated ''tx_a'' ''2024-01-01'']"
proof -
  let ?E = "[dated ''tx_a'' ''2024-01-01'']"
  let ?I = "[dated ''tx_a'' ''2024-12-31'', dated ''tx_d'' ''2024-03-15'',
             dated ''tx_d'' ''2024-01-01'']"
  have r: "mergeTransactions exampleTime ?E ?I
             = [dated ''tx_d'' ''2024-03-15'', dated ''tx_a'' ''2024-01-01'']"
    by code_simp
  have h: "dated ''tx_a'' ''2024-01-01'' \<in> set (mergeTransactions exampleTime ?E ?I)
           \<and> tid (dated ''tx_a'' ''2024-01-01'') \<in> tid ` set ?E"
    unfolding r by simp
  from merge_conservation [of exampleTime ?E ?I "dated ''tx_a'' ''2024-01-01''"] h r
  show ?thesis by blast
qed

subsection \<open>Re-import\<close>




subsection \<open>Order of the result\<close>

text \<open>
  C6, as stated, fails: a record whose date is not a valid date compares as equal to
  every other record, and the records around it are then not brought into date order.
  Here the record of 2024-01-01 stays in front of the record of 2024-12-31.
\<close>

theorem merge_unsorted_around_invalid_date:
  "mergeTransactions exampleTime
      [dated ''tx_a'' ''2024-01-01'', dated ''tx_b'' '''', dated ''tx_c'' ''2024-12-31''] []
     = [dated ''tx_a'' ''2024-01-01'', dated ''tx_b'' '''', dated ''tx_c'' ''2024-12-31'']
   \<and> exampleTime ''2024-01-01'' = Some 1704067200000
   \<and> exampleTime ''2024-12-31'' = Some 1735603200000
   \<and> exampleTime '''' = None
   \<and> \<not> descByDate exampleTime (mergeTransactions exampleTime
      [dated ''tx_a'' ''2024-01-01'', dated ''tx_b'' '''', dated ''tx_c'' ''2024-12-31''] [])"
  by code_simp

text \<open>
  C6, amended. When the date of every record of both lists is a valid date, the result of
  \<open>mergeTransactions\<close> is sorted by date, newest first, and the records of any one date
  stand in the order they had before the sort, that is in the existing list followed by
  the added incoming records: the sort is stable and breaks no tie.
\<close>

theorem merge_sorted_stable:
  assumes "\<forall>t\<in>set E \<union> set I. g (date t) \<noteq> None"
  shows "descByDate g (mergeTransactions g E I)
    \<and> (\<forall>v. filter (\<lambda>t. g (date t) = v) (mergeTransactions g E I)
             = filter (\<lambda>t. g (date t) = v) (E @ firstOccurrences (tid ` set E) I))"
proof -
  from assms have "\<forall>t\<in>set (E @ firstOccurrences (tid ` set E) I). g (date t) \<noteq> None"
    using set_firstOccurrences [of "tid ` set E" I] by auto
  then show ?thesis
    unfolding mergeTransactions_eq by (simp only: sortWith_desc sortWith_stable simp_thms)
qed

theorem merge_sorted_stable_witness:
  "list_all (\<lambda>t. exampleTime (date t) \<noteq> None)
     ([dated ''tx_c'' ''2024-12-31'', dated ''tx_a'' ''2024-01-01'']
      @ [dated ''tx_d'' ''2024-03-15'', dated ''tx_e'' ''2024-12-31'', dated ''tx_a'' ''2024-03-15''])
   \<and> descByDate exampleTime (mergeTransactions exampleTime
        [dated ''tx_c'' ''2024-12-31'', dated ''tx_a'' ''2024-01-01'']
        [dated ''tx_d'' ''2024-03-15'', dated ''tx_e'' ''2024-12-31'', dated ''tx_a'' ''2024-03-15''])
   \<and> mergeTransactions exampleTime
        [dated ''tx_c'' ''2024-12-31'', dated ''tx_a'' ''2024-01-01'']
        [dated ''tx_d'' ''2024-03-15'', dated ''tx_e'' ''2024-12-31'', dated ''tx_a'' ''2024-03-15'']
      = [dated ''tx_c'' ''2024-12-31'', dated ''tx_e'' ''2024-12-31'',
         dated ''tx_d'' ''2024-03-15'', dated ''tx_a'' ''2024-01-01'']"
proof -
  let ?E = "[dated ''tx_c'' ''2024-12-31'', dated ''tx_a'' ''2024-01-01'']"
  let ?I = "[dated ''tx_d'' ''2024-03-15'', dated ''tx_e'' ''2024-12-31'',
             dated ''tx_a'' ''2024-03-15'']"
  have valid: "\<forall>t\<in>set ?E \<union> set ?I. exampleTime (date t) \<noteq> None"
    by (simp add: dated_def exampleTime_def)
  have r: "mergeTransactions exampleTime ?E ?I
      = [dated ''tx_c'' ''2024-12-31'', dated ''tx_e'' ''2024-12-31'',
         dated ''tx_d'' ''2024-03-15'', dated ''tx_a'' ''2024-01-01'']"
    by code_simp
  have "list_all (\<lambda>t. exampleTime (date t) \<noteq> None) (?E @ ?I)"
    by (simp add: dated_def exampleTime_def)
  with merge_sorted_stable [OF valid] r show ?thesis
    by blast
qed

section \<open>Properties of the categorization engine\<close>

lemma startsWith_iff: "startsWith s k \<longleftrightarrow> (\<exists>q. s = k @ q)"
  by (induction s k rule: startsWith.induct) auto

lemma includesStr_iff: "includesStr s k \<longleftrightarrow> (\<exists>p q. s = p @ k @ q)"
proof (induction s)
  case Nil
  then show ?case by auto
next
  case (Cons c cs)
  have "(\<exists>p q. c # cs = p @ k @ q) \<longleftrightarrow> (\<exists>q. c # cs = k @ q) \<or> (\<exists>p q. cs = p @ k @ q)"
  proof
    assume "\<exists>p q. c # cs = p @ k @ q"
    then obtain p q where pq: "c # cs = p @ k @ q" by blast
    show "(\<exists>q. c # cs = k @ q) \<or> (\<exists>p q. cs = p @ k @ q)"
    proof (cases p)
      case Nil
      with pq show ?thesis by auto
    next
      case (Cons a p')
      with pq have "cs = p' @ k @ q" by simp
      then show ?thesis by blast
    qed
  next
    assume "(\<exists>q. c # cs = k @ q) \<or> (\<exists>p q. cs = p @ k @ q)"
    then show "\<exists>p q. c # cs = p @ k @ q"
    proof
      assume "\<exists>q. c # cs = k @ q"
      then obtain q where "c # cs = [] @ k @ q" by auto
      then show ?thesis by blast
    next
      assume "\<exists>p q. cs = p @ k @ q"
      then obtain p q where "c # cs = (c # p) @ k @ q" by auto
      then show ?thesis by blast
    qed
  qed
  with Cons show ?case by (simp add: startsWith_iff)
qed

lemma containsAny_iff:
  "containsAny d ks \<longleftrightarrow> (\<exists>k\<in>set ks. \<exists>p q. toLowerCase d = p @ toLowerCase k @ q)"
  by (simp add: containsAny_def list_ex_iff includesStr_iff)

lemma firstMatch_find:
  "firstMatch rules t
     = (case find (\<lambda>rule. match rule t) rules of None \<Rightarrow> ''pendiente'' | Some rule \<Rightarrow> ruleCategory rule)"
  by (induction rules) auto

lemma firstMatch_index:
  "i < length rules \<Longrightarrow> match (rules ! i) t \<Longrightarrow> \<forall>k<i. \<not> match (rules ! k) t
     \<Longrightarrow> firstMatch rules t = ruleCategory (rules ! i)"
proof (induction rules arbitrary: i)
  case Nil
  then show ?case by simp
next
  case (Cons r rules)
  show ?case
  proof (cases i)
    case 0
    with Cons.prems show ?thesis by simp
  next
    case (Suc i')
    with Cons.prems have "\<not> match r t" by auto
    moreover from Cons.prems Suc have "\<forall>k<i'. \<not> match (rules ! k) t" by auto
    ultimately show ?thesis using Cons.IH [of i'] Cons.prems Suc by simp
  qed
qed

lemma firstMatch_none:
  "\<forall>rule\<in>set rules. \<not> match rule t \<Longrightarrow> firstMatch rules t = ''pendiente''"
  by (induction rules) auto

lemma firstMatch_earliest:
  assumes "i < length rules" and "match (rules ! i) t"
  shows "\<exists>k\<le>i. firstMatch rules t = ruleCategory (rules ! k)"
proof -
  define k where "k = (LEAST k. match (rules ! k) t)"
  have mk: "match (rules ! k) t" unfolding k_def using assms(2) by (rule LeastI)
  have le: "k \<le> i" unfolding k_def using assms(2) by (rule Least_le)
  have "\<forall>l<k. \<not> match (rules ! l) t" unfolding k_def using not_less_Least by blast
  with mk le assms(1) have "firstMatch rules t = ruleCategory (rules ! k)"
    by (intro firstMatch_index) auto
  with le show ?thesis by blast
qed

lemma firstMatch_not_later:
  assumes "distinct (map ruleCategory rules)" and "i < j" and "j < length rules"
    and "match (rules ! i) t"
  shows "firstMatch rules t \<noteq> ruleCategory (rules ! j)"
proof -
  from assms obtain k where k: "k \<le> i" "firstMatch rules t = ruleCategory (rules ! k)"
    using firstMatch_earliest [of i rules t] by auto
  with assms have kl: "k < length rules" and kj: "k \<noteq> j" by auto
  have "(map ruleCategory rules ! k = map ruleCategory rules ! j) = (k = j)"
    using assms(1,3) kl by (intro nth_eq_iff_index_eq) simp_all
  with kj kl assms(3) have "ruleCategory (rules ! k) \<noteq> ruleCategory (rules ! j)"
    by simp
  with k show ?thesis by simp
qed

lemma rule_categories:
  "map ruleCategory getCategorizationRules
     = [''salary'', ''rent'', ''groceries'', ''dining'', ''transport'', ''utilities'',
        ''subscriptions'', ''shopping'', ''entertainment'', ''health'', ''travel'',
        ''education'', ''pets'', ''savings'']"
  by (simp add: getCategorizationRules_def)

lemma rule_predicates:
  "map (\<lambda>rule. match rule t) getCategorizationRules
     = [ ttype t = Income \<and>
            containsAny (description t) [''payroll'', ''salary'', ''paycheck'', ''direct deposit''],
         containsAny (description t) [''rent'', ''lease''],
         containsAny (description t) [''grocery'', ''market'', ''supermart'', ''fresh mart''],
         containsAny (description t) [''cafe'', ''restaurant'', ''bistro'', ''diner'', ''takeout''],
         containsAny (description t)
            [''transit'', ''metro'', ''bus'', ''rail'', ''uber'', ''lyft'', ''fuel'', ''gas''],
         containsAny (description t) [''electric'', ''water'', ''utility'', ''internet'', ''phone''],
         containsAny (description t)
            [''subscription'', ''streaming'', ''music'', ''cloud'', ''software''],
         containsAny (description t) [''store'', ''online order'', ''retail'', ''shop''],
         containsAny (description t) [''cinema'', ''movie'', ''concert'', ''theater'', ''game''],
         containsAny (description t) [''pharmacy'', ''clinic'', ''hospital'', ''dentist''],
         containsAny (description t) [''airlines'', ''hotel'', ''airbnb'', ''booking''],
         containsAny (description t) [''course'', ''tuition'', ''academy'', ''workshop''],
         containsAny (description t) [''pet'', ''vet'', ''pet food''],
         containsAny (description t) [''transfer to savings'', ''savings transfer''] ]"
  unfolding getCategorizationRules_def
  by (simp only: list.map categorizationRule.select_convs)

lemma distinct_rule_categories: "distinct (map ruleCategory getCategorizationRules)"
  unfolding rule_categories by simp

text \<open>
  C2, as stated, fails in its last part: the Salary rule also asks for type income, so an
  expense whose description contains a keyword of Salary and a keyword of Rent gets the
  category of Rent, the later of the two rules.
\<close>

theorem salary_keyword_on_expense_is_rent:
  "containsAny (description (exampleTransaction\<lparr>description := ''Salary advance for rent''\<rparr>))
      [''payroll'', ''salary'', ''paycheck'', ''direct deposit'']
   \<and> containsAny (description (exampleTransaction\<lparr>description := ''Salary advance for rent''\<rparr>))
      [''rent'', ''lease'']
   \<and> ttype (exampleTransaction\<lparr>description := ''Salary advance for rent''\<rparr>) = Expense
   \<and> ruleCategory (getCategorizationRules ! 0) = ''salary''
   \<and> ruleCategory (getCategorizationRules ! 1) = ''rent''
   \<and> categorizeTransaction (exampleTransaction\<lparr>description := ''Salary advance for rent''\<rparr>) = ''rent''"
  by code_simp

text \<open>
  C2, amended. \<open>categorizeTransaction\<close> returns the category of the first rule of the list
  whose predicate holds of the transaction, and \<^verbatim>\<open>pendiente\<close> when no predicate holds. When
  the predicates of two rules hold, the result is not the category of the later one: it
  is the category of the earliest rule whose predicate holds. The list is the fixed list
  of fourteen rules; the predicate of a rule holds when the description, in lower case,
  has one of the keywords of the rule as a substring, and for the Salary rule when in
  addition the type is income.
\<close>

theorem first_match_semantics:
  "categorizeTransaction t
     = (case find (\<lambda>rule. match rule t) getCategorizationRules of
          None \<Rightarrow> ''pendiente'' | Some rule \<Rightarrow> ruleCategory rule)
   \<and> (i < length getCategorizationRules \<and> match (getCategorizationRules ! i) t
        \<and> (\<forall>k<i. \<not> match (getCategorizationRules ! k) t)
      \<longrightarrow> categorizeTransaction t = ruleCategory (getCategorizationRules ! i))
   \<and> ((\<forall>rule\<in>set getCategorizationRules. \<not> match rule t)
      \<longrightarrow> categorizeTransaction t = ''pendiente'')
   \<and> (i < j \<and> j < length getCategorizationRules
        \<and> match (getCategorizationRules ! i) t \<and> match (getCategorizationRules ! j) t
      \<longrightarrow> categorizeTransaction t \<noteq> ruleCategory (getCategorizationRules ! j))
   \<and> map ruleCategory getCategorizationRules
       = [''salary'', ''rent'', ''groceries'', ''dining'', ''transport'', ''utilities'',
          ''subscriptions'', ''shopping'', ''entertainment'', ''health'', ''travel'',
          ''education'', ''pets'', ''savings'']
   \<and> map (\<lambda>rule. match rule t) getCategorizationRules
       = [ ttype t = Income \<and>
              containsAny (description t) [''payroll'', ''salary'', ''paycheck'', ''direct deposit''],
           containsAny (description t) [''rent'', ''lease''],
           containsAny (description t) [''grocery'', ''market'', ''supermart'', ''fresh mart''],
           containsAny (description t) [''cafe'', ''restaurant'', ''bistro'', ''diner'', ''takeout''],
           containsAny (description t)
              [''transit'', ''metro'', ''bus'', ''rail'', ''uber'', ''lyft'', ''fuel'', ''gas''],
           containsAny (description t) [''electric'', ''water'', ''utility'', ''internet'', ''phone''],
           containsAny (description t)
              [''subscription'', ''streaming'', ''music'', ''cloud'', ''software''],
           containsAny (description t) [''store'', ''online order'', ''retail'', ''shop''],
           containsAny (description t) [''cinema'', ''movie'', ''concert'', ''theater'', ''game''],
           containsAny (description t) [''pharmacy'', ''clinic'', ''hospital'', ''dentist''],
           containsAny (description t) [''airlines'', ''hotel'', ''airbnb'', ''booking''],
           containsAny (description t) [''course'', ''tuition'', ''academy'', ''workshop''],
           containsAny (description t) [''pet'', ''vet'', ''pet food''],
           containsAny (description t) [''transfer to savings'', ''savings transfer''] ]
   \<and> (containsAny d ks \<longleftrightarrow> (\<exists>k\<in>set ks. \<exists>p q. toLowerCase d = p @ toLowerCase k @ q))"
proof -
  have first: "categorizeTransaction t
     = (case find (\<lambda>rule. match rule t) getCategorizationRules of
          None \<Rightarrow> ''pendiente'' | Some rule \<Rightarrow> ruleCategory rule)"
    by (simp add: categorizeTransaction_def firstMatch_find)
  have at_index: "i < length getCategorizationRules \<and> match (getCategorizationRules ! i) t
        \<and> (\<forall>k<i. \<not> match (getCategorizationRules ! k) t)
      \<longrightarrow> categorizeTransaction t = ruleCategory (getCategorizationRules ! i)"
    using firstMatch_index [of i getCategorizationRules t]
    by (simp add: categorizeTransaction_def)
  have pending: "(\<forall>rule\<in>set getCategorizationRules. \<not> match rule t)
      \<longrightarrow> categorizeTransaction t = ''pendiente''"
    using firstMatch_none [of getCategorizationRules t]
    by (simp add: categorizeTransaction_def)
  have not_later: "i < j \<and> j < length getCategorizationRules
        \<and> match (getCategorizationRules ! i) t \<and> match (getCategorizationRules ! j) t
      \<longrightarrow> categorizeTransaction t \<noteq> ruleCategory (getCategorizationRules ! j)"
    using firstMatch_not_later [OF distinct_rule_categories, of i j t]
    by (simp add: categorizeTransaction_def)
  note table = rule_categories rule_predicates [of t] containsAny_iff [of d ks]
  show ?thesis
    by (intro conjI first at_index pending not_later table)
qed

theorem first_match_semantics_witness:
  "match (getCategorizationRules ! 2) (exampleTransaction\<lparr>description := ''Supermart Cafe''\<rparr>)
   \<and> match (getCategorizationRules ! 3) (exampleTransaction\<lparr>description := ''Supermart Cafe''\<rparr>)
   \<and> categorizeTransaction (exampleTransaction\<lparr>description := ''Supermart Cafe''\<rparr>) = ''groceries''
   \<and> categorizeTransaction (exampleTransaction\<lparr>description := ''Supermart Cafe''\<rparr>)
        \<noteq> ruleCategory (getCategorizationRules ! 3)
   \<and> categorizeTransaction (exampleTransaction\<lparr>description := ''Bizum''\<rparr>) = ''pendiente''"
proof -
  let ?t = "exampleTransaction\<lparr>description := ''Supermart Cafe''\<rparr>"
  let ?u = "exampleTransaction\<lparr>description := ''Bizum''\<rparr>"
  have len: "(2::nat) < 3 \<and> (3::nat) < length getCategorizationRules"
    and len2: "(2::nat) < length getCategorizationRules"
    by (simp_all add: getCategorizationRules_def)
  have m2: "match (getCategorizationRules ! 2) ?t" by code_simp
  have m3: "match (getCategorizationRules ! 3) ?t" by code_simp
  have m0: "\<not> match (getCategorizationRules ! 0) ?t" by code_simp
  have m1: "\<not> match (getCategorizationRules ! 1) ?t" by code_simp
  have before: "\<forall>k<2. \<not> match (getCategorizationRules ! k) ?t"
    using m0 m1 by (auto simp: less_Suc_eq numeral_2_eq_2)
  have c2: "ruleCategory (getCategorizationRules ! 2) = ''groceries''"
    by (simp add: getCategorizationRules_def)
  have none: "\<forall>rule\<in>set getCategorizationRules. \<not> match rule ?u"
    by code_simp
  note two = first_match_semantics [of ?t 2 3 "[]" "[]"]
  have "categorizeTransaction ?t = ruleCategory (getCategorizationRules ! 2)"
    using two [THEN conjunct2, THEN conjunct1] len2 m2 before by blast
  then have first: "categorizeTransaction ?t = ''groceries''"
    using c2 by simp
  have later: "categorizeTransaction ?t \<noteq> ruleCategory (getCategorizationRules ! 3)"
    using two [THEN conjunct2, THEN conjunct2, THEN conjunct2, THEN conjunct1] len m2 m3
    by blast
  have "categorizeTransaction ?u = ''pendiente''"
    using first_match_semantics [of ?u 0 0 "[]" "[]", THEN conjunct2, THEN conjunct2,
        THEN conjunct1] none
    by blast
  with first later m2 m3 show ?thesis by blast
qed

lemma trim_Nil: "trim [] = []"
  by (simp add: trim_def)

lemma applyRule_override:
  "categoryOverride t = Some s \<Longrightarrow> trim s \<noteq> [] \<Longrightarrow> applyRule pm t = t"
  by (auto simp: applyRule_def trim_Nil)

text \<open>
  C1. \<open>applyRulesToTransactions\<close> returns a transaction whose \<open>categoryOverride\<close> is present
  and not blank (not empty after trimming) unchanged, at the same position, whatever the
  \<open>preserveManualCategories\<close> flag is; so its category is not reassigned.
\<close>

theorem override_sanctity:
  "i < length ts \<Longrightarrow> categoryOverride (ts ! i) = Some s \<Longrightarrow> trim s \<noteq> [] \<Longrightarrow>
     length (applyRulesToTransactions ts pm) = length ts
     \<and> applyRulesToTransactions ts pm ! i = ts ! i"
  by (simp add: applyRulesToTransactions_def applyRule_override)

theorem override_sanctity_witness:
  "(0::nat) < length [exampleTransaction\<lparr>categoryOverride := Some ''travel''\<rparr>]
   \<and> categoryOverride ([exampleTransaction\<lparr>categoryOverride := Some ''travel''\<rparr>] ! 0) = Some ''travel''
   \<and> trim ''travel'' \<noteq> []
   \<and> applyRulesToTransactions [exampleTransaction\<lparr>categoryOverride := Some ''travel''\<rparr>] False ! 0
       = exampleTransaction\<lparr>categoryOverride := Some ''travel''\<rparr>
   \<and> category (applyRulesToTransactions
                 [exampleTransaction\<lparr>categoryOverride := Some ''travel''\<rparr>] False ! 0) = ''pendiente''
   \<and> categorizeTransaction (exampleTransaction\<lparr>categoryOverride := Some ''travel''\<rparr>) = ''groceries''"
proof -
  let ?t = "exampleTransaction\<lparr>categoryOverride := Some ''travel''\<rparr>"
  have len: "(0::nat) < length [?t]" by simp
  have ov: "categoryOverride ([?t] ! 0) = Some ''travel''" by simp
  have nb: "trim ''travel'' \<noteq> []" by (simp add: trim_def isWhiteSpace_def)
  have cat: "categorizeTransaction ?t = ''groceries''"
    by code_simp
  have pend: "category ?t = ''pendiente''"
    by (simp add: exampleTransaction_def)
  from override_sanctity [OF len ov nb, of False] len ov nb cat pend show ?thesis
    by simp
qed

text \<open>
  The boundary of the override test: an override made of a no-break space alone is blank,
  since \<open>trim\<close> removes that character too, and the transaction is categorized by the
  rules.
\<close>

lemma trim_no_break_space: "trim [CHR 0xA0] = []"
  by (simp add: trim_def isWhiteSpace_def)

lemma blank_override_is_recategorized:
  "applyRulesToTransactions [exampleTransaction\<lparr>categoryOverride := Some [CHR 0xA0]\<rparr>] False
     = [exampleTransaction\<lparr>categoryOverride := Some [CHR 0xA0], category := ''groceries''\<rparr>]"
proof -
  have "categorizeTransaction (exampleTransaction\<lparr>categoryOverride := Some [CHR 0xA0]\<rparr>)
          = ''groceries''"
    by code_simp
  then show ?thesis
    by (simp add: applyRulesToTransactions_def applyRule_def trim_no_break_space Let_def)
qed

lemma applyRule_frame:
  "tid (applyRule pm t) = tid t" "date (applyRule pm t) = date t"
  "description (applyRule pm t) = description t"
  "descriptionOverride (applyRule pm t) = descriptionOverride t"
  "amount (applyRule pm t) = amount t"
  "categoryOverride (applyRule pm t) = categoryOverride t"
  "account (applyRule pm t) = account t"
  "ttype (applyRule pm t) = ttype t"
  by (simp_all add: applyRule_def Let_def)

text \<open>
  C8. \<open>applyRulesToTransactions\<close> keeps the length and the order of the list, and every
  field of every transaction other than \<open>category\<close>: read off field by field, the result
  and the argument are the same lists.
\<close>

theorem applyRules_frame:
  "length (applyRulesToTransactions ts pm) = length ts
   \<and> map tid (applyRulesToTransactions ts pm) = map tid ts
   \<and> map date (applyRulesToTransactions ts pm) = map date ts
   \<and> map description (applyRulesToTransactions ts pm) = map description ts
   \<and> map descriptionOverride (applyRulesToTransactions ts pm) = map descriptionOverride ts
   \<and> map amount (applyRulesToTransactions ts pm) = map amount ts
   \<and> map categoryOverride (applyRulesToTransactions ts pm) = map categoryOverride ts
   \<and> map account (applyRulesToTransactions ts pm) = map account ts
   \<and> map ttype (applyRulesToTransactions ts pm) = map ttype ts"
  by (simp add: applyRulesToTransactions_def applyRule_frame comp_def)

end
